theory Spec2Isabelle
  imports Main
begin

section \<open>JavaScript string and array primitives used by onetab-analyzer.js\<close>

text \<open>
  Strings are modelled as \<^typ>\<open>string\<close> (lists of 8-bit characters). Host names produced
  by the URL parser are ASCII, and the interactive commands are ASCII words, so the
  primitives below follow the ECMAScript definitions on ASCII text: case conversion touches
  only \<open>A\<close>..\<open>Z\<close>, and white space is tab, line feed, vertical tab, form feed, carriage
  return and space. The white space and the letters that ECMAScript knows beyond ASCII
  (such as U+00A0) have no counterpart in these strings.
\<close>

definition upper_lower_table :: "(char \<times> char) list" where
  "upper_lower_table = zip ''ABCDEFGHIJKLMNOPQRSTUVWXYZ'' ''abcdefghijklmnopqrstuvwxyz''"

definition lowerChar :: "char \<Rightarrow> char" where
  "lowerChar c = (case map_of upper_lower_table c of Some l \<Rightarrow> l | None \<Rightarrow> c)"

text \<open>\<open>String.prototype.toLowerCase\<close>.\<close>

definition toLowerCase :: "string \<Rightarrow> string" where
  "toLowerCase s = map lowerChar s"

definition isSpace :: "char \<Rightarrow> bool" where
  "isSpace c = (c \<in> set [CHR 0x09, CHR 0x0A, CHR 0x0B, CHR 0x0C, CHR 0x0D, CHR '' ''])"

text \<open>\<open>String.prototype.trim\<close>.\<close>

definition trim :: "string \<Rightarrow> string" where
  "trim s = rev (dropWhile isSpace (rev (dropWhile isSpace s)))"

text \<open>
  \<open>s.split(sep)\<close> for a one-character separator: the empty string gives one empty
  piece, and every occurrence of the separator starts a new piece.
\<close>

fun str_split :: "char \<Rightarrow> string \<Rightarrow> string list" where
  "str_split sep [] = [[]]"
| "str_split sep (c # cs) =
     (if c = sep then [] # str_split sep cs
      else (case str_split sep cs of
              [] \<Rightarrow> [[c]]
            | p # ps \<Rightarrow> (c # p) # ps))"

text \<open>\<open>parts.join(sep)\<close>.\<close>

fun str_join :: "string \<Rightarrow> string list \<Rightarrow> string" where
  "str_join sep [] = []"
| "str_join sep [p] = p"
| "str_join sep (p # q # ps) = p @ sep @ str_join sep (q # ps)"

text \<open>
  \<open>parts.slice(-n)\<close> for \<open>n > 0\<close>: the last \<open>n\<close> elements, or the whole array when it
  has fewer than \<open>n\<close> elements (the start index \<open>length - n\<close> is clamped at \<open>0\<close>, which is
  what truncating subtraction on \<^typ>\<open>nat\<close> does).
\<close>

definition slice_last :: "nat \<Rightarrow> 'a list \<Rightarrow> 'a list" where
  "slice_last n xs = drop (length xs - n) xs"

text \<open>\<open>s.endsWith(t)\<close>.\<close>

definition endsWith :: "string \<Rightarrow> string \<Rightarrow> bool" where
  "endsWith s t = (length t \<le> length s \<and> drop (length s - length t) s = t)"

section \<open>Domain extraction\<close>

definition MULTI_PART_TLDS :: "string list" where
  "MULTI_PART_TLDS =
     [''co.uk'', ''co.nz'', ''co.jp'', ''co.il'',
      ''com.au'', ''com.br'', ''org.uk'',
      ''github.io'', ''gitlab.io'', ''vercel.app'', ''netlify.app'']"

text \<open>
  The \<open>for (const tld of MULTI_PART_TLDS)\<close> loop of \<open>extractDomain\<close>: the first table entry
  \<open>tld\<close> with \<open>hostname.endsWith("." + tld)\<close> returns from the function; \<open>None\<close> means the
  loop ran to its end without returning.
\<close>

fun tld_loop :: "string list \<Rightarrow> string \<Rightarrow> string list \<Rightarrow> string option" where
  "tld_loop [] hostname parts = None"
| "tld_loop (tld # tlds) hostname parts =
     (if endsWith hostname (CHR ''.'' # tld)
      then (let tldPartCount = length (str_split CHR ''.'' tld)
            in Some (str_join ''.'' (slice_last (tldPartCount + 1) parts)))
      else tld_loop tlds hostname parts)"

text \<open>
  \<open>extractDomain(urlString)\<close>. The platform's URL parser is a parameter:
  \<open>hostname_of s\<close> is \<open>Some (new URL(s).hostname)\<close>, and \<open>None\<close> when the constructor
  throws, which the \<open>catch\<close> block turns into \<open>null\<close>.
\<close>

definition extractDomain :: "(string \<Rightarrow> string option) \<Rightarrow> string \<Rightarrow> string option" where
  "extractDomain hostname_of urlString =
     (case hostname_of (trim urlString) of
        None \<Rightarrow> None
      | Some h \<Rightarrow>
          (let hostname = toLowerCase h;
               parts = str_split CHR ''.'' hostname
           in (case tld_loop MULTI_PART_TLDS hostname parts of
                 Some d \<Rightarrow> Some d
               | None \<Rightarrow> Some (str_join ''.'' (slice_last 2 parts)))))"

text \<open>
  A small stand-in for the platform's URL parser, used to run \<open>extractDomain\<close> on sample
  inputs. It covers \<open>http\<close> and \<open>https\<close> URLs with a plain ASCII host name:
  \<open>scheme ":" slashes [userinfo "@"] host [":" port] [("/" | "\\" | "?" | "#") rest]\<close>,
  and fails on everything else (in particular on a string without a scheme). It validates
  neither the port nor the characters of the host and knows no IP address forms; the
  general statements below hold for every parser and use it on sample inputs only.
\<close>

definition after_last_at :: "string \<Rightarrow> string" where
  "after_last_at s = rev (takeWhile (\<lambda>c. c \<noteq> CHR ''@'') (rev s))"

definition url_hostname :: "string \<Rightarrow> string option" where
  "url_hostname s =
     (let scheme = toLowerCase (takeWhile (\<lambda>c. c \<noteq> CHR '':'') s);
          rest = drop (length scheme) s
      in if (scheme = ''http'' \<or> scheme = ''https'') \<and> rest \<noteq> []
         then (let after = dropWhile (\<lambda>c. c = CHR ''/'' \<or> c = CHR 0x5C) (tl rest);
                   authority = takeWhile (\<lambda>c. c \<notin> set [CHR ''/'', CHR 0x5C, CHR ''?'', CHR ''#'']) after;
                   host = takeWhile (\<lambda>c. c \<noteq> CHR '':'') (after_last_at authority)
               in if host = [] then None else Some (toLowerCase host))
         else None)"

section \<open>Entries and the grouping index\<close>

record entry =
  url :: string
  title :: string
  domain :: string
  raw :: string

text \<open>
  A JavaScript \<open>Map\<close> keeps its keys in insertion order, and the display order of equally
  large groups depends on it, so the grouping index is an association list with
  \<open>Map.prototype.get\<close> as \<^const>\<open>map_of\<close> and \<open>Map.prototype.set\<close> as \<open>map_set\<close>:
  an existing key keeps its position, a new key goes to the end.
\<close>

fun map_set :: "('k \<times> 'v) list \<Rightarrow> 'k \<Rightarrow> 'v \<Rightarrow> ('k \<times> 'v) list" where
  "map_set [] k v = [(k, v)]"
| "map_set ((k', v') # m) k v =
     (if k' = k then (k, v) # m else (k', v') # map_set m k v)"

text \<open>The body of \<open>groupByDomain\<close>, from a given state of the \<open>groups\<close> map.\<close>

fun group_loop :: "(string \<times> entry list) list \<Rightarrow> entry list \<Rightarrow> (string \<times> entry list) list" where
  "group_loop gs [] = gs"
| "group_loop gs (e # es) =
     (let l = (case map_of gs (domain e) of None \<Rightarrow> [] | Some l \<Rightarrow> l)
      in group_loop (map_set gs (domain e) (l @ [e])) es)"

definition groupByDomain :: "entry list \<Rightarrow> (string \<times> entry list) list" where
  "groupByDomain es = group_loop [] es"

section \<open>Reference resolution\<close>

definition isDigit :: "char \<Rightarrow> bool" where
  "isDigit c = (c \<in> set ''0123456789'')"

definition digitVal :: "char \<Rightarrow> int" where
  "digitVal c = int (length (takeWhile (\<lambda>d. d \<noteq> c) ''0123456789''))"

definition digitsVal :: "string \<Rightarrow> int" where
  "digitsVal ds = foldl (\<lambda>a c. 10 * a + digitVal c) 0 ds"

text \<open>
  The numbers of the program are JavaScript numbers (IEEE 754 doubles). The ones that occur
  here come from \<open>parseInt\<close> and from array lengths: integers, or an infinity when a
  run of digits is too long for a double. \<open>NaN\<close> is kept apart as \<open>None\<close> where
  \<open>parseInt\<close> returns.
\<close>

datatype number = Num int | Infinity | NegInfinity

text \<open>The comparisons \<open>x <= k\<close>, \<open>x >= k\<close> and \<open>x > k\<close> of a number with an integer.\<close>

definition num_le_int :: "number \<Rightarrow> int \<Rightarrow> bool" where
  "num_le_int x k = (case x of Num n \<Rightarrow> n \<le> k | Infinity \<Rightarrow> False | NegInfinity \<Rightarrow> True)"

definition num_ge_int :: "number \<Rightarrow> int \<Rightarrow> bool" where
  "num_ge_int x k = (case x of Num n \<Rightarrow> n \<ge> k | Infinity \<Rightarrow> True | NegInfinity \<Rightarrow> False)"

definition num_gt_int :: "number \<Rightarrow> int \<Rightarrow> bool" where
  "num_gt_int x k = (case x of Num n \<Rightarrow> n > k | Infinity \<Rightarrow> True | NegInfinity \<Rightarrow> False)"

text \<open>The number of binary digits of a positive integer (\<open>0\<close> for the others).\<close>

function bit_length :: "int \<Rightarrow> int" where
  "bit_length n = (if n \<le> 0 then 0 else 1 + bit_length (n div 2))"
  by pat_completeness auto
termination
  by (relation "measure nat") auto

declare bit_length.simps [simp del]

text \<open>
  The double nearest to an integer \<open>m \<ge> 0\<close>: \<open>m\<close> itself below \<open>2^53\<close>; otherwise
  \<open>m\<close> cut to its leading 53 binary digits, rounded to nearest with ties to the even
  mantissa; \<open>None\<close> (infinity) when the rounded value reaches \<open>2^1024\<close>.
\<close>

definition round_magnitude :: "int \<Rightarrow> int option" where
  "round_magnitude m =
     (if m < 2 ^ 53 then Some m
      else (let shift = nat (bit_length m - 53);
                q = m div 2 ^ shift;
                r = m mod 2 ^ shift;
                half = 2 ^ (shift - 1);
                q' = (if r > half \<or> (r = half \<and> odd q) then q + 1 else q);
                v = q' * 2 ^ shift
            in if v \<ge> 2 ^ 1024 then None else Some v))"

text \<open>The number that an integer becomes as a JavaScript value.\<close>

definition toDouble :: "int \<Rightarrow> number" where
  "toDouble i =
     (case round_magnitude \<bar>i\<bar> of
        None \<Rightarrow> (if i < 0 then NegInfinity else Infinity)
      | Some v \<Rightarrow> Num (if i < 0 then - v else v))"

text \<open>
  The integer that \<open>parseInt(s, 10)\<close> reads: leading white space is skipped, one sign is
  accepted, and the longest run of decimal digits that follows is read; whatever comes
  after the digits is ignored. \<open>None\<close> means that no digit stands where one is expected.
\<close>

definition parseInt_mathInt :: "string \<Rightarrow> int option" where
  "parseInt_mathInt s =
     (let t = dropWhile isSpace s;
          neg = (t \<noteq> [] \<and> hd t = CHR ''-'');
          u = (if t \<noteq> [] \<and> (hd t = CHR ''-'' \<or> hd t = CHR ''+'') then tl t else t);
          ds = takeWhile isDigit u
      in if ds = [] then None
         else Some (if neg then - digitsVal ds else digitsVal ds))"

text \<open>
  \<open>parseInt(s, 10)\<close>: the integer read, as a number; \<open>None\<close> is \<open>NaN\<close>. The value is
  the correctly rounded double of the digits, which is what V8 computes (ECMAScript lets an
  implementation approximate digits after the 20th).
\<close>

definition parseInt :: "string \<Rightarrow> number option" where
  "parseInt s = map_option toDouble (parseInt_mathInt s)"

fun startsWith :: "string \<Rightarrow> string \<Rightarrow> bool" where
  "startsWith s [] = True"
| "startsWith [] (c # t) = False"
| "startsWith (b # s) (c # t) = (b = c \<and> startsWith s t)"

text \<open>\<open>s.includes(t)\<close>: \<open>t\<close> occurs in \<open>s\<close> as a contiguous substring.\<close>

fun str_includes :: "string \<Rightarrow> string \<Rightarrow> bool" where
  "str_includes [] t = (t = [])"
| "str_includes (c # s) t = (startsWith (c # s) t \<or> str_includes s t)"

text \<open>
  \<open>getSortedDomains\<close>: the groups with at least \<open>threshold\<close> entries, by descending entry
  count. \<open>Array.prototype.sort\<close> is stable, as \<^const>\<open>sort_key\<close> is.
\<close>

definition getSortedDomains ::
    "(string \<times> entry list) list \<Rightarrow> number \<Rightarrow> (string \<times> entry list) list" where
  "getSortedDomains gs thr =
     sort_key (\<lambda>(d, e). - int (length e))
       (filter (\<lambda>(d, e). num_le_int thr (int (length e))) gs)"

text \<open>
  \<open>resolveDomain(input, sortedDomains)\<close>; \<open>None\<close> is \<open>null\<close>. The name search is one
  \<open>find\<close> over the list with the predicate \<open>d === lower || d.includes(lower)\<close>, and
  \<open>match?.[0] || null\<close> turns an empty domain name into \<open>null\<close> as well. An infinite
  \<open>num\<close> fails \<open>num >= 1\<close> or \<open>num <= sortedDomains.length\<close>.
\<close>

definition resolveDomain :: "string \<Rightarrow> (string \<times> entry list) list \<Rightarrow> string option" where
  "resolveDomain input sortedDomains =
     (let byName =
            (let lower = toLowerCase input
             in case find (\<lambda>(d, e). d = lower \<or> str_includes d lower) sortedDomains of
                  None \<Rightarrow> None
                | Some (d, e) \<Rightarrow> if d = [] then None else Some d)
      in case parseInt input of
           None \<Rightarrow> byName
         | Some (Num num) \<Rightarrow>
             if num \<ge> 1 \<and> num \<le> int (length sortedDomains)
             then Some (fst (sortedDomains ! nat (num - 1)))
             else byName
         | Some Infinity \<Rightarrow> byName
         | Some NegInfinity \<Rightarrow> byName)"

section \<open>The interactive session\<close>

record session =
  threshold :: number
  markedForDeletion :: "string set"

text \<open>
  What a command handler prints, one constructor per \<open>console.log\<close> of the handlers
  (colour codes left out): \<open>Domain not found\<close>, the listing of \<open>printUrls\<close>,
  \<open>Marked d for deletion\<close>, \<open>Unmarked d\<close>, \<open>Domain not in deletion list\<close>,
  \<open>Please provide filename\<close>, \<open>No domains marked for deletion\<close>,
  \<open>Cannot overwrite input file\<close>, \<open>Saved n URLs to f\<close> and \<open>Removed n URLs\<close>.
  The screen that the loop redraws before every prompt is not part of the model.
\<close>

datatype report =
    DomainNotFound
  | Urls string "entry list"
  | Marked string
  | Unmarked string
  | NotInDeletionList
  | ProvideFilename
  | NoDomainsMarked
  | CannotOverwriteInput
  | Saved nat string
  | Removed nat

text \<open>An effect is a printed report or \<open>fs.writeFileSync(name, content)\<close>.\<close>

datatype effect = Print report | WriteFile string string

text \<open>
  How a handler leaves the \<open>switch\<close>: \<open>Loop\<close> goes straight to the next iteration,
  \<open>PressEnter\<close> first awaits \<open>prompt(rl, "Press Enter to continue...")\<close>, and \<open>Return\<close>
  closes the interface and leaves \<open>runInteractive\<close>.
\<close>

datatype control = Loop | PressEnter | Return

text \<open>A value used as a condition: \<open>null\<close> and the empty string are falsy.\<close>

definition truthy :: "string option \<Rightarrow> bool" where
  "truthy v = (case v of None \<Rightarrow> False | Some d \<Rightarrow> d \<noteq> [])"

definition cmd_show ::
    "(string \<times> entry list) list \<Rightarrow> session \<Rightarrow> string \<Rightarrow> effect list \<times> session \<times> control" where
  "cmd_show gs s arg =
     (let d = resolveDomain arg (getSortedDomains gs (threshold s))
      in if truthy d \<and> map_of gs (the d) \<noteq> None
         then ([Print (Urls (the d) (the (map_of gs (the d))))], s, PressEnter)
         else ([Print DomainNotFound], s, PressEnter))"

definition cmd_delete ::
    "(string \<times> entry list) list \<Rightarrow> session \<Rightarrow> string \<Rightarrow> effect list \<times> session \<times> control" where
  "cmd_delete gs s arg =
     (let d = resolveDomain arg (getSortedDomains gs (threshold s))
      in if truthy d
         then ([Print (Marked (the d))],
               s\<lparr>markedForDeletion := insert (the d) (markedForDeletion s)\<rparr>, PressEnter)
         else ([Print DomainNotFound], s, PressEnter))"

text \<open>
  The domain that \<open>undo\<close> acts on: \<open>resolveDomain(arg, sortedDomains) || arg.toLowerCase()\<close>.
\<close>

definition undo_target :: "(string \<times> entry list) list \<Rightarrow> session \<Rightarrow> string \<Rightarrow> string" where
  "undo_target gs s arg =
     (let r = resolveDomain arg (getSortedDomains gs (threshold s))
      in if truthy r then the r else toLowerCase arg)"

definition cmd_undo ::
    "(string \<times> entry list) list \<Rightarrow> session \<Rightarrow> string \<Rightarrow> effect list \<times> session \<times> control" where
  "cmd_undo gs s arg =
     (let d = undo_target gs s arg
      in if d \<in> markedForDeletion s
         then ([Print (Unmarked d)],
               s\<lparr>markedForDeletion := markedForDeletion s - {d}\<rparr>, PressEnter)
         else ([Print NotInDeletionList], s, PressEnter))"

text \<open>
  The \<open>save\<close> case. The call of \<open>fs.writeFileSync\<close> is recorded as a \<open>WriteFile\<close>
  effect, and the handler is followed for a call that returns; a call that throws ends the
  process before anything else is printed.
\<close>

definition cmd_save ::
    "entry list \<Rightarrow> string \<Rightarrow> session \<Rightarrow> string \<Rightarrow> effect list \<times> session \<times> control" where
  "cmd_save es inputFile s arg =
     (if arg = [] then ([Print ProvideFilename], s, PressEnter)
      else if markedForDeletion s = {} then ([Print NoDomainsMarked], s, PressEnter)
      else if arg = inputFile then ([Print CannotOverwriteInput], s, PressEnter)
      else (let filtered = filter (\<lambda>e. domain e \<notin> markedForDeletion s) es
            in ([WriteFile arg (str_join [CHR 0x0A] (map raw filtered)),
                 Print (Saved (length filtered) arg),
                 Print (Removed (length es - length filtered))], s, PressEnter)))"

definition cmd_threshold :: "session \<Rightarrow> string \<Rightarrow> effect list \<times> session \<times> control" where
  "cmd_threshold s arg =
     (case parseInt arg of
        None \<Rightarrow> ([], s, Loop)
      | Some newThreshold \<Rightarrow>
          if num_gt_int newThreshold 0 then ([], s\<lparr>threshold := newThreshold\<rparr>, Loop)
          else ([], s, Loop))"

text \<open>
  \<open>input.split(/\s+/)\<close>: every maximal run of white space is one separator, and a
  separator at either end of the string leaves an empty piece there.
\<close>

fun split_ws :: "string \<Rightarrow> string list" where
  "split_ws [] = [[]]"
| "split_ws (c # cs) =
     (if isSpace c
      then (if cs \<noteq> [] \<and> isSpace (hd cs) then split_ws cs else [] # split_ws cs)
      else (case split_ws cs of
              [] \<Rightarrow> [[c]]
            | p # ps \<Rightarrow> (c # p) # ps))"

text \<open>
  One pass through the body of the \<open>while\<close> loop for the line \<open>answer\<close> read at the
  \<open>>\<close> prompt: \<open>prompt\<close> trims it, the first word (lower-cased) selects the case of the
  \<open>switch\<close>, and the other words joined by single spaces are \<open>arg\<close>. A word that matches
  no case does nothing.
\<close>

definition command ::
    "entry list \<Rightarrow> (string \<times> entry list) list \<Rightarrow> string \<Rightarrow> session \<Rightarrow> string
      \<Rightarrow> effect list \<times> session \<times> control" where
  "command es gs inputFile s answer =
     (let input = trim answer;
          ws = split_ws input;
          cmd = toLowerCase (hd ws);
          arg = str_join '' '' (tl ws)
      in if cmd = ''show'' \<or> cmd = ''s'' then cmd_show gs s arg
         else if cmd = ''delete'' \<or> cmd = ''d'' then cmd_delete gs s arg
         else if cmd = ''undo'' \<or> cmd = ''u'' then cmd_undo gs s arg
         else if cmd = ''save'' then cmd_save es inputFile s arg
         else if cmd = ''threshold'' \<or> cmd = ''t'' then cmd_threshold s arg
         else if cmd = ''quit'' \<or> cmd = ''q'' \<or> cmd = ''exit'' then ([], s, Return)
         else ([], s, Loop))"

text \<open>
  The \<open>while (true)\<close> loop, run on the lines that arrive on standard input. The flag says
  whether the loop is waiting at \<open>Press Enter to continue...\<close>, whose answer is dropped.
  The result is the effects so far, the session state, and whether \<open>quit\<close> was reached;
  when the lines run out first, the loop is still waiting for input in that state.
\<close>

fun session_loop ::
    "entry list \<Rightarrow> (string \<times> entry list) list \<Rightarrow> string \<Rightarrow> session \<Rightarrow> bool \<Rightarrow> string list
      \<Rightarrow> effect list \<times> session \<times> bool" where
  "session_loop es gs inputFile s waiting [] = ([], s, False)"
| "session_loop es gs inputFile s True (answer # answers) =
     session_loop es gs inputFile s False answers"
| "session_loop es gs inputFile s False (answer # answers) =
     (case command es gs inputFile s answer of
        (out, s', Return) \<Rightarrow> (out, s', True)
      | (out, s', ctl) \<Rightarrow>
          (case session_loop es gs inputFile s' (ctl = PressEnter) answers of
             (out', s'', finished) \<Rightarrow> (out @ out', s'', finished)))"

definition runInteractive ::
    "entry list \<Rightarrow> (string \<times> entry list) list \<Rightarrow> number \<Rightarrow> string \<Rightarrow> string list
      \<Rightarrow> effect list \<times> session \<times> bool" where
  "runInteractive es gs initialThreshold inputFile answers =
     session_loop es gs inputFile
       \<lparr>threshold = initialThreshold, markedForDeletion = {}\<rparr> False answers"

section \<open>The specification's reading of a threshold argument\<close>

text \<open>
  The specification updates the threshold "if N is a positive integer". As a property of
  the argument string: it is a non-empty run of decimal digits whose value is positive.
\<close>

definition denotes_positive_integer :: "string \<Rightarrow> bool" where
  "denotes_positive_integer arg = (arg \<noteq> [] \<and> list_all isDigit arg \<and> digitsVal arg > 0)"

section \<open>A sample export\<close>

text \<open>
  Four parsed lines of an export, as \<open>parseFile\<close> delivers them: two tabs of
  \<open>mygithub.com\<close>, one of \<open>github.com\<close> and one of \<open>rare.org\<close>.
\<close>

definition sample_entry :: "string \<Rightarrow> string \<Rightarrow> entry" where
  "sample_entry u d = \<lparr>url = u, title = [], domain = d, raw = u\<rparr>"

definition sample_entries :: "entry list" where
  "sample_entries =
     [sample_entry ''https://mygithub.com/a'' ''mygithub.com'',
      sample_entry ''https://github.com/x'' ''github.com'',
      sample_entry ''https://mygithub.com/b'' ''mygithub.com'',
      sample_entry ''https://rare.org/'' ''rare.org'']"

definition sample_groups :: "(string \<times> entry list) list" where
  "sample_groups =
     [(''mygithub.com'',
        [sample_entry ''https://mygithub.com/a'' ''mygithub.com'',
         sample_entry ''https://mygithub.com/b'' ''mygithub.com'']),
      (''github.com'', [sample_entry ''https://github.com/x'' ''github.com'']),
      (''rare.org'', [sample_entry ''https://rare.org/'' ''rare.org''])]"

section \<open>Properties of the string primitives\<close>

lemma str_split_not_Nil: "str_split sep s \<noteq> []"
  by (induction s) (auto split: list.splits)

lemma str_split_append:
  "str_split sep (xs @ sep # ys) = str_split sep xs @ str_split sep ys"
  by (induction xs) (auto split: list.splits simp: str_split_not_Nil)

lemma str_split_no_sep: "sep \<notin> set s \<Longrightarrow> str_split sep s = [s]"
  by (induction s) auto

lemma length_str_split: "length (str_split sep s) = Suc (length (filter (\<lambda>c. c = sep) s))"
  by (induction s) (auto split: list.splits simp: str_split_not_Nil)

lemma str_join_split: "str_join [sep] (str_split sep s) = s"
proof (induction s)
  case Nil
  show ?case by simp
next
  case (Cons c cs)
  obtain p ps where ps: "str_split sep cs = p # ps"
    using str_split_not_Nil[of sep cs] by (cases "str_split sep cs") auto
  show ?case
  proof (cases "c = sep")
    case True
    with Cons ps show ?thesis by simp
  next
    case False
    with Cons ps show ?thesis by (cases ps) auto
  qed
qed

lemma endsWith_iff: "endsWith s t \<longleftrightarrow> (\<exists>p. s = p @ t)"
proof
  assume "endsWith s t"
  then have "s = take (length s - length t) s @ t"
    unfolding endsWith_def by (metis append_take_drop_id)
  then show "\<exists>p. s = p @ t" ..
next
  assume "\<exists>p. s = p @ t"
  then show "endsWith s t" by (auto simp: endsWith_def)
qed

lemma endsWith_take:
  "endsWith s t \<Longrightarrow> s = take (length s - length t) s @ t"
  unfolding endsWith_def by (metis append_take_drop_id)

lemma tld_loop_None:
  "tld_loop tlds h parts = None \<longleftrightarrow> (\<forall>t \<in> set tlds. \<not> endsWith h (CHR ''.'' # t))"
  by (induction tlds) (auto simp: Let_def)

lemma tld_loop_Some:
  "tld_loop tlds h parts = Some d \<Longrightarrow>
     \<exists>t \<in> set tlds. endsWith h (CHR ''.'' # t) \<and>
        d = str_join ''.'' (slice_last (length (str_split CHR ''.'' t) + 1) parts)"
  by (induction tlds) (auto simp: Let_def split: if_splits)

lemma tlds_two_labels: "t \<in> set MULTI_PART_TLDS \<Longrightarrow> length (str_split CHR ''.'' t) = 2"
  by (auto simp: MULTI_PART_TLDS_def)

lemma slice_last_snoc3: "slice_last 3 (qs @ [l, a, b]) = [l, a, b]"
  by (simp add: slice_last_def)

lemma slice_last_append2:
  assumes "ps \<noteq> []"
  shows "slice_last 3 (ps @ [a, b]) = [last ps, a, b]"
proof -
  have "ps @ [a, b] = butlast ps @ [last ps, a, b]"
    using assms by (metis append.assoc append_Cons append_Nil append_butlast_last_id)
  then show ?thesis by (simp only: slice_last_snoc3)
qed

lemmas str_eval = toLowerCase_def lowerChar_def upper_lower_table_def isSpace_def isDigit_def
  digitVal_def digitsVal_def trim_def

lemmas url_eval = url_hostname_def after_last_at_def str_eval Let_def

section \<open>Properties of domain extraction\<close>

text \<open>
  C1. The claim: every sibling of a listed suffix is listed too, so that
  \<open>extractDomain("https://example.org.il/page")\<close> is \<open>example.org.il\<close> because \<open>co.il\<close>
  is listed. The table as it stands has \<open>co.il\<close> and no \<open>org.il\<close>: whatever the URL parser,
  once it delivers the host \<open>example.org.il\<close> the loop finds no entry and the fallback
  returns the bare suffix \<open>org.il\<close>.
\<close>

theorem org_il_collapses_to_bare_suffix:
  assumes "hostname_of (trim ''https://example.org.il/page'') = Some ''example.org.il''"
  shows "extractDomain hostname_of ''https://example.org.il/page'' = Some ''org.il''"
  using assms
  by (simp add: extractDomain_def MULTI_PART_TLDS_def endsWith_def slice_last_def
      toLowerCase_def lowerChar_def upper_lower_table_def)

theorem org_il_collapses_to_bare_suffix_witness:
  "''co.il'' \<in> set MULTI_PART_TLDS \<and> ''org.il'' \<notin> set MULTI_PART_TLDS
   \<and> extractDomain url_hostname ''https://example.org.il/page'' = Some ''org.il''"
proof -
  have p: "url_hostname (trim ''https://example.org.il/page'') = Some ''example.org.il''"
    by (simp add: url_eval)
  show ?thesis
    using org_il_collapses_to_bare_suffix[where hostname_of = url_hostname, OF p]
    by (simp add: MULTI_PART_TLDS_def)
qed

text \<open>
  C2. When the URL parses and its lower-cased host name ends with \<open>"." + S\<close> for a listed
  suffix \<open>S\<close>, \<open>extractDomain\<close> returns the last \<open>labelCount(S) + 1\<close> labels of the host
  name joined by dots; and that string is \<open>S\<close> with exactly the one label to its left, the
  last label of what precedes \<open>"." + S\<close> in the host name.
\<close>

theorem extractDomain_listed_suffix:
  assumes parse: "hostname_of (trim urlString) = Some h"
    and listed: "S \<in> set MULTI_PART_TLDS"
    and ends: "endsWith (toLowerCase h) (CHR ''.'' # S)"
  shows "extractDomain hostname_of urlString =
           Some (str_join ''.'' (slice_last (length (str_split CHR ''.'' S) + 1)
                                   (str_split CHR ''.'' (toLowerCase h))))
         \<and> extractDomain hostname_of urlString =
           Some (last (str_split CHR ''.''
                   (take (length h - Suc (length S)) (toLowerCase h))) @ ''.'' @ S)"
proof -
  let ?host = "toLowerCase h"
  let ?parts = "str_split CHR ''.'' ?host"
  let ?p = "take (length h - Suc (length S)) ?host"
  from listed ends have "tld_loop MULTI_PART_TLDS ?host ?parts \<noteq> None"
    by (auto simp: tld_loop_None)
  then obtain d where d: "tld_loop MULTI_PART_TLDS ?host ?parts = Some d" by auto
  from tld_loop_Some[OF d] obtain t where t: "t \<in> set MULTI_PART_TLDS"
    and dt: "d = str_join ''.'' (slice_last (length (str_split CHR ''.'' t) + 1) ?parts)"
    by blast
  have res: "extractDomain hostname_of urlString = Some d"
    by (simp add: extractDomain_def parse d Let_def)
  have cnt: "length (str_split CHR ''.'' t) = 2" "length (str_split CHR ''.'' S) = 2"
    using t listed by (simp_all add: tlds_two_labels)
  have d3: "d = str_join ''.'' (slice_last 3 ?parts)"
    by (simp add: dt cnt)
  have first: "d = str_join ''.'' (slice_last (length (str_split CHR ''.'' S) + 1) ?parts)"
    by (simp add: dt cnt)
  have host: "?host = ?p @ CHR ''.'' # S"
    using endsWith_take[OF ends] by (simp add: toLowerCase_def)
  obtain a b where ab: "str_split CHR ''.'' S = [a, b]"
    using cnt(2) by (auto simp: length_Suc_conv numeral_2_eq_2)
  have S: "a @ ''.'' @ b = S"
    using str_join_split[of "CHR ''.''" S] by (simp add: ab)
  have "?parts = str_split CHR ''.'' (?p @ CHR ''.'' # S)"
    using host by simp
  then have "?parts = str_split CHR ''.'' ?p @ [a, b]"
    by (simp only: str_split_append ab)
  then have "slice_last 3 ?parts = [last (str_split CHR ''.'' ?p), a, b]"
    by (simp only: slice_last_append2[OF str_split_not_Nil])
  then have "d = last (str_split CHR ''.'' ?p) @ ''.'' @ (a @ ''.'' @ b)"
    by (simp add: d3)
  then have second: "d = last (str_split CHR ''.'' ?p) @ ''.'' @ S"
    by (simp only: S)
  from res first second show ?thesis by simp
qed

theorem extractDomain_listed_suffix_witness:
  "extractDomain url_hostname ''https://www.bbc.co.uk/news'' = Some ''bbc.co.uk''"
proof -
  have p: "url_hostname (trim ''https://www.bbc.co.uk/news'') = Some ''www.bbc.co.uk''"
    by (simp add: url_hostname_def trim_def toLowerCase_def lowerChar_def upper_lower_table_def
        isSpace_def after_last_at_def Let_def)
  have l: "''co.uk'' \<in> set MULTI_PART_TLDS" by (simp add: MULTI_PART_TLDS_def)
  have e: "endsWith (toLowerCase ''www.bbc.co.uk'') (CHR ''.'' # ''co.uk'')"
    by (simp add: endsWith_def toLowerCase_def lowerChar_def upper_lower_table_def)
  show ?thesis
    using extractDomain_listed_suffix[where hostname_of = url_hostname, OF p l e]
    by (simp add: slice_last_def toLowerCase_def lowerChar_def upper_lower_table_def)
qed

text \<open>
  C3. When the URL parses and its lower-cased host name ends with no listed suffix,
  \<open>extractDomain\<close> returns the last two labels of the lower-cased host name joined by a
  dot; and a host name with fewer than two labels comes back whole (lower-cased).
\<close>

theorem extractDomain_fallback:
  assumes parse: "hostname_of (trim urlString) = Some h"
  shows "((\<forall>S \<in> set MULTI_PART_TLDS. \<not> endsWith (toLowerCase h) (CHR ''.'' # S)) \<longrightarrow>
            extractDomain hostname_of urlString =
              Some (str_join ''.'' (slice_last 2 (str_split CHR ''.'' (toLowerCase h)))))
         \<and> (length (str_split CHR ''.'' (toLowerCase h)) < 2 \<longrightarrow>
              extractDomain hostname_of urlString = Some (toLowerCase h))"
proof (intro conjI impI)
  let ?host = "toLowerCase h"
  let ?parts = "str_split CHR ''.'' ?host"
  assume "\<forall>S \<in> set MULTI_PART_TLDS. \<not> endsWith ?host (CHR ''.'' # S)"
  then have "tld_loop MULTI_PART_TLDS ?host ?parts = None"
    by (simp add: tld_loop_None)
  then show "extractDomain hostname_of urlString = Some (str_join ''.'' (slice_last 2 ?parts))"
    by (simp add: extractDomain_def parse Let_def)
next
  let ?host = "toLowerCase h"
  let ?parts = "str_split CHR ''.'' ?host"
  assume short: "length ?parts < 2"
  then have nodot: "CHR ''.'' \<notin> set ?host"
    by (auto simp: length_str_split filter_empty_conv)
  have "\<not> endsWith ?host (CHR ''.'' # S)" for S
    using nodot by (auto simp: endsWith_iff)
  then have none: "tld_loop MULTI_PART_TLDS ?host ?parts = None"
    by (simp add: tld_loop_None)
  have "?parts = [?host]" using nodot by (rule str_split_no_sep)
  then have "str_join ''.'' (slice_last 2 ?parts) = ?host"
    by (simp add: slice_last_def)
  with none show "extractDomain hostname_of urlString = Some ?host"
    by (simp add: extractDomain_def parse Let_def)
qed

theorem extractDomain_fallback_witness:
  "extractDomain url_hostname ''https://blog.example.com'' = Some ''example.com''
   \<and> extractDomain url_hostname ''http://localhost:3000/'' = Some ''localhost''"
proof -
  have p1: "url_hostname (trim ''https://blog.example.com'') = Some ''blog.example.com''"
    by (simp add: url_hostname_def trim_def toLowerCase_def lowerChar_def upper_lower_table_def
        isSpace_def after_last_at_def Let_def)
  have p2: "url_hostname (trim ''http://localhost:3000/'') = Some ''localhost''"
    by (simp add: url_hostname_def trim_def toLowerCase_def lowerChar_def upper_lower_table_def
        isSpace_def after_last_at_def Let_def)
  have n1: "\<forall>S \<in> set MULTI_PART_TLDS. \<not> endsWith (toLowerCase ''blog.example.com'') (CHR ''.'' # S)"
    by (simp add: MULTI_PART_TLDS_def endsWith_def toLowerCase_def lowerChar_def upper_lower_table_def)
  have n2: "length (str_split CHR ''.'' (toLowerCase ''localhost'')) < 2"
    by (simp add: toLowerCase_def lowerChar_def upper_lower_table_def)
  show ?thesis
    using extractDomain_fallback[where hostname_of = url_hostname, OF p1]
      extractDomain_fallback[where hostname_of = url_hostname, OF p2] n1 n2
    by (simp add: slice_last_def toLowerCase_def lowerChar_def upper_lower_table_def)
qed


section \<open>Properties of the number conversion\<close>

lemma bit_length_nonneg: "0 \<le> bit_length n"
proof (induction n rule: bit_length.induct)
  case (1 n)
  show ?case
  proof (cases "n \<le> 0")
    case True
    then show ?thesis using bit_length.simps[of n] by simp
  next
    case False
    with "1.IH" have "0 \<le> bit_length (n div 2)" by simp
    with False show ?thesis using bit_length.simps[of n] by simp
  qed
qed

lemma bit_length_lower: "0 < n \<Longrightarrow> 2 ^ nat (bit_length n - 1) \<le> n"
proof (induction n rule: bit_length.induct)
  case (1 n)
  from "1.prems" have bl: "bit_length n = 1 + bit_length (n div 2)"
    using bit_length.simps[of n] by simp
  show ?case
  proof (cases "n div 2 \<le> 0")
    case True
    then have "bit_length (n div 2) = 0"
      using bit_length.simps[of "n div 2"] by simp
    with bl "1.prems" show ?thesis by simp
  next
    case False
    with "1.IH" "1.prems" have ih: "2 ^ nat (bit_length (n div 2) - 1) \<le> n div 2" by simp
    have "bit_length (n div 2) = 1 + bit_length (n div 2 div 2)"
      using False bit_length.simps[of "n div 2"] by simp
    then have ge1: "1 \<le> bit_length (n div 2)"
      using bit_length_nonneg[of "n div 2 div 2"] by simp
    have "nat (bit_length n - 1) = Suc (nat (bit_length (n div 2) - 1))"
      using bl ge1 by simp
    then have "(2::int) ^ nat (bit_length n - 1) = 2 * 2 ^ nat (bit_length (n div 2) - 1)"
      by simp
    also have "\<dots> \<le> 2 * (n div 2)" using ih by simp
    also have "\<dots> \<le> n" by simp
    finally show ?thesis .
  qed
qed

lemma round_magnitude_exact: "m < 2 ^ 53 \<Longrightarrow> round_magnitude m = Some m"
  by (simp add: round_magnitude_def)

lemma round_magnitude_nonneg:
  assumes "0 \<le> m" "round_magnitude m = Some v"
  shows "0 \<le> v"
proof (cases "m < 2 ^ 53")
  case True
  with assms show ?thesis by (simp add: round_magnitude_def)
next
  case False
  have "0 \<le> m div 2 ^ nat (bit_length m - 53)"
    using assms(1) by (simp add: pos_imp_zdiv_nonneg_iff)
  with assms(2) False show ?thesis
    by (auto simp: round_magnitude_def Let_def split: if_splits)
qed

lemma round_magnitude_pos:
  assumes "0 < m" "round_magnitude m = Some v"
  shows "0 < v"
proof (cases "m < 2 ^ 53")
  case True
  with assms show ?thesis by (simp add: round_magnitude_def)
next
  case False
  let ?shift = "nat (bit_length m - 53)"
  have "?shift \<le> nat (bit_length m - 1)" by simp
  then have "(2::int) ^ ?shift \<le> 2 ^ nat (bit_length m - 1)"
    by (rule power_increasing) simp
  also have "\<dots> \<le> m" using assms(1) by (rule bit_length_lower)
  finally have "1 \<le> m div 2 ^ ?shift"
    by (simp add: pos_imp_zdiv_pos_iff Suc_le_eq int_one_le_iff_zero_less)
  then have "0 < (if m mod 2 ^ ?shift > 2 ^ (?shift - 1)
                    \<or> (m mod 2 ^ ?shift = 2 ^ (?shift - 1) \<and> odd (m div 2 ^ ?shift))
                  then m div 2 ^ ?shift + 1 else m div 2 ^ ?shift) * 2 ^ ?shift"
    by simp
  with assms(2) False show ?thesis
    by (auto simp: round_magnitude_def Let_def split: if_splits)
qed

lemma toDouble_exact: "\<bar>i\<bar> < 2 ^ 53 \<Longrightarrow> toDouble i = Num i"
  by (simp add: toDouble_def round_magnitude_exact)

lemma toDouble_pos: "0 < i \<Longrightarrow> num_gt_int (toDouble i) 0"
  using round_magnitude_pos[of "\<bar>i\<bar>"]
  by (auto simp: toDouble_def num_gt_int_def split: option.splits)

lemma toDouble_nonpos: "i \<le> 0 \<Longrightarrow> \<not> num_gt_int (toDouble i) 0"
proof (cases "i = 0")
  case True
  then show ?thesis by (simp add: toDouble_def round_magnitude_exact num_gt_int_def)
next
  case False
  assume "i \<le> 0"
  with False have "i < 0" by simp
  then show ?thesis
    using round_magnitude_nonneg[of "\<bar>i\<bar>"]
    by (auto simp: toDouble_def num_gt_int_def split: option.splits)
qed

lemma scaled_ge:
  fixes m q' :: int
  assumes "2 ^ k \<le> m" "1 \<le> m div 2 ^ sh" "m div 2 ^ sh \<le> q'"
  shows "2 ^ k \<le> q' * 2 ^ sh"
proof (cases "sh \<le> k")
  case True
  then have split: "(2::int) ^ k = 2 ^ (k - sh) * 2 ^ sh"
    by (simp add: power_add[symmetric])
  have "(2::int) ^ (k - sh) = (2 ^ (k - sh) * 2 ^ sh) div 2 ^ sh" by simp
  also have "\<dots> \<le> m div 2 ^ sh"
    using assms(1) split by (intro zdiv_mono1) simp_all
  finally have "(2::int) ^ (k - sh) \<le> q'" using assms(3) by simp
  then have "(2::int) ^ (k - sh) * 2 ^ sh \<le> q' * 2 ^ sh"
    by (rule mult_right_mono) simp
  with split show ?thesis by simp
next
  case False
  then have "(2::int) ^ k \<le> 2 ^ sh" by (intro power_increasing) simp_all
  also have "\<dots> = 1 * 2 ^ sh" by simp
  also have "\<dots> \<le> q' * 2 ^ sh"
    using assms(2,3) by (intro mult_right_mono) simp_all
  finally show ?thesis .
qed

lemma round_magnitude_overflow:
  assumes "2 ^ 1024 \<le> m"
  shows "round_magnitude m = None"
proof -
  let ?sh = "nat (bit_length m - 53)"
  let ?q = "m div 2 ^ ?sh"
  let ?q' = "if m mod 2 ^ ?sh > 2 ^ (?sh - 1) \<or> (m mod 2 ^ ?sh = 2 ^ (?sh - 1) \<and> odd ?q)
             then ?q + 1 else ?q"
  have "(2::int) ^ 53 \<le> 2 ^ 1024" by (rule power_increasing) simp_all
  with assms have big: "\<not> m < 2 ^ 53" by linarith
  have "(0::int) < 2 ^ 1024" by simp
  with assms have pos: "0 < m" by linarith
  have "?sh \<le> nat (bit_length m - 1)" by simp
  then have "(2::int) ^ ?sh \<le> 2 ^ nat (bit_length m - 1)"
    by (rule power_increasing) simp
  also have "\<dots> \<le> m" using pos by (rule bit_length_lower)
  finally have q1: "1 \<le> ?q"
    by (simp add: pos_imp_zdiv_pos_iff Suc_le_eq int_one_le_iff_zero_less)
  have "?q \<le> ?q'" by simp
  with assms q1 have "2 ^ 1024 \<le> ?q' * 2 ^ ?sh" by (rule scaled_ge)
  with big show ?thesis
    unfolding round_magnitude_def Let_def by (simp only: if_False if_True)
qed

lemma toDouble_overflow: "2 ^ 1024 \<le> n \<Longrightarrow> toDouble n = Infinity"
proof -
  assume a: "2 ^ 1024 \<le> n"
  have "(0::int) < 2 ^ 1024" by simp
  with a have "0 < n" by linarith
  with a show ?thesis by (simp add: toDouble_def round_magnitude_overflow)
qed

lemmas num_eval = parseInt_def parseInt_mathInt_def toDouble_def round_magnitude_def
  num_le_int_def num_ge_int_def num_gt_int_def

section \<open>Properties of the grouping index and of reference resolution\<close>

lemma map_set_keys: "fst ` set (map_set m k v) = insert k (fst ` set m)"
  by (induction m k v rule: map_set.induct) auto

lemma map_set_distinct: "distinct (map fst m) \<Longrightarrow> distinct (map fst (map_set m k v))"
  by (induction m k v rule: map_set.induct) (auto simp: map_set_keys)

lemma group_loop_keys: "fst ` set (group_loop gs es) = fst ` set gs \<union> domain ` set es"
  by (induction es arbitrary: gs) (auto simp: Let_def map_set_keys)

lemma group_loop_distinct:
  "distinct (map fst gs) \<Longrightarrow> distinct (map fst (group_loop gs es))"
  by (induction es arbitrary: gs) (auto simp: Let_def map_set_distinct)

lemma groupByDomain_keys: "fst ` set (groupByDomain es) = domain ` set es"
  by (simp add: groupByDomain_def group_loop_keys)

lemma groupByDomain_distinct: "distinct (map fst (groupByDomain es))"
  by (simp add: groupByDomain_def group_loop_distinct)

lemma set_getSortedDomains:
  "set (getSortedDomains gs thr) = {(d, e). (d, e) \<in> set gs \<and> num_le_int thr (int (length e))}"
  by (auto simp: getSortedDomains_def)

lemma resolveDomain_in_list:
  assumes "resolveDomain input sd = Some d"
  shows "d \<in> fst ` set sd"
proof -
  let ?lower = "toLowerCase input"
  let ?byName = "case find (\<lambda>(d, e). d = ?lower \<or> str_includes d ?lower) sd of
                   None \<Rightarrow> None | Some (d, e) \<Rightarrow> if d = [] then None else Some d"
  have byName: "d \<in> fst ` set sd" if "?byName = Some d"
  proof -
    from that obtain e where "find (\<lambda>(d, e). d = ?lower \<or> str_includes d ?lower) sd = Some (d, e)"
      by (auto split: option.splits prod.splits if_splits)
    then have "(d, e) \<in> set sd"
      by (metis find_Some_iff nth_mem)
    then show ?thesis by force
  qed
  have idx: "d \<in> fst ` set sd"
    if "num \<ge> 1 \<and> num \<le> int (length sd)" "d = fst (sd ! nat (num - 1))" for num
  proof -
    from that(1) have "nat (num - 1) < length sd" by linarith
    then have "sd ! nat (num - 1) \<in> set sd" by (rule nth_mem)
    with that(2) show ?thesis by simp
  qed
  show ?thesis
  proof (cases "parseInt input")
    case None
    with assms have "?byName = Some d" by (simp add: resolveDomain_def Let_def)
    then show ?thesis by (rule byName)
  next
    case (Some x)
    show ?thesis
    proof (cases x)
      case (Num num)
      show ?thesis
      proof (cases "num \<ge> 1 \<and> num \<le> int (length sd)")
        case True
        with assms Some Num have "d = fst (sd ! nat (num - 1))"
          by (simp add: resolveDomain_def Let_def)
        with True show ?thesis by (rule idx)
      next
        case False
        with assms Some Num have "?byName = Some d" by (simp add: resolveDomain_def Let_def)
        then show ?thesis by (rule byName)
      qed
    next
      case Infinity
      with assms Some have "?byName = Some d" by (simp add: resolveDomain_def Let_def)
      then show ?thesis by (rule byName)
    next
      case NegInfinity
      with assms Some have "?byName = Some d" by (simp add: resolveDomain_def Let_def)
      then show ?thesis by (rule byName)
    qed
  qed
qed

lemma startsWith_refl: "startsWith s s"
  by (induction s) auto

lemma str_includes_refl: "str_includes d d"
  by (cases d) (auto simp: startsWith_refl)

lemma resolveDomain_cases:
  assumes "resolveDomain input sd = Some d"
  shows "d = toLowerCase input \<or> str_includes d (toLowerCase input)
         \<or> (\<exists>n. parseInt input = Some (Num n) \<and> 1 \<le> n \<and> n \<le> int (length sd)
                 \<and> d = fst (sd ! nat (n - 1)))"
proof -
  let ?lower = "toLowerCase input"
  let ?byName = "case find (\<lambda>(d, e). d = ?lower \<or> str_includes d ?lower) sd of
                   None \<Rightarrow> None | Some (d, e) \<Rightarrow> if d = [] then None else Some d"
  have byName: "d = ?lower \<or> str_includes d ?lower" if "?byName = Some d"
  proof -
    from that obtain e where "find (\<lambda>(d, e). d = ?lower \<or> str_includes d ?lower) sd = Some (d, e)"
      by (auto split: option.splits prod.splits if_splits)
    then show ?thesis by (auto simp: find_Some_iff)
  qed
  show ?thesis
  proof (cases "parseInt input")
    case None
    with assms have "?byName = Some d" by (simp add: resolveDomain_def Let_def)
    with byName show ?thesis by blast
  next
    case (Some x)
    show ?thesis
    proof (cases x)
      case (Num num)
      show ?thesis
      proof (cases "num \<ge> 1 \<and> num \<le> int (length sd)")
        case True
        with assms Some Num have "d = fst (sd ! nat (num - 1))"
          by (simp add: resolveDomain_def Let_def)
        with True Some Num show ?thesis by blast
      next
        case False
        with assms Some Num have "?byName = Some d" by (simp add: resolveDomain_def Let_def)
        with byName show ?thesis by blast
      qed
    next
      case Infinity
      with assms Some have "?byName = Some d" by (simp add: resolveDomain_def Let_def)
      with byName show ?thesis by blast
    next
      case NegInfinity
      with assms Some have "?byName = Some d" by (simp add: resolveDomain_def Let_def)
      with byName show ?thesis by blast
    qed
  qed
qed

lemma resolveDomain_visible:
  assumes "resolveDomain input (getSortedDomains gs thr) = Some d"
  shows "\<exists>e. (d, e) \<in> set gs \<and> num_le_int thr (int (length e))"
  using resolveDomain_in_list[OF assms] by (auto simp: set_getSortedDomains)

lemma cmd_delete_marks:
  "markedForDeletion (fst (snd (cmd_delete gs s arg))) \<subseteq> markedForDeletion s \<union> fst ` set gs"
proof (cases "resolveDomain arg (getSortedDomains gs (threshold s))")
  case None
  then show ?thesis by (simp add: cmd_delete_def truthy_def)
next
  case (Some d)
  from resolveDomain_visible[OF Some] have "d \<in> fst ` set gs" by force
  with Some show ?thesis by (auto simp: cmd_delete_def truthy_def Let_def)
qed

lemma cmd_undo_marks:
  "markedForDeletion (fst (snd (cmd_undo gs s arg))) \<subseteq> markedForDeletion s"
  by (auto simp: cmd_undo_def Let_def)

lemma cmd_show_state: "fst (snd (cmd_show gs s arg)) = s"
  by (simp add: cmd_show_def Let_def)

lemma cmd_save_state: "fst (snd (cmd_save es inputFile s arg)) = s"
  by (simp add: cmd_save_def Let_def)

lemma cmd_threshold_marks:
  "markedForDeletion (fst (snd (cmd_threshold s arg))) = markedForDeletion s"
  by (simp add: cmd_threshold_def split: option.splits)

lemma command_marks:
  "markedForDeletion (fst (snd (command es gs inputFile s answer)))
     \<subseteq> markedForDeletion s \<union> fst ` set gs"
  using cmd_delete_marks[of gs s] cmd_undo_marks[of gs s]
  by (auto simp: command_def Let_def cmd_show_state cmd_save_state cmd_threshold_marks)

lemma session_loop_marks:
  "markedForDeletion s \<subseteq> K \<Longrightarrow> fst ` set gs \<subseteq> K \<Longrightarrow>
   markedForDeletion (fst (snd (session_loop es gs inputFile s waiting answers))) \<subseteq> K"
proof (induction es gs inputFile s waiting answers rule: session_loop.induct)
  case (1 es gs inputFile s waiting)
  then show ?case by simp
next
  case (2 es gs inputFile s answer answers)
  then show ?case by simp
next
  case (3 es gs inputFile s answer answers)
  obtain out s' ctl where c: "command es gs inputFile s answer = (out, s', ctl)"
    by (cases "command es gs inputFile s answer") auto
  have s': "markedForDeletion s' \<subseteq> K"
    using command_marks[of es gs inputFile s answer] c "3.prems" by auto
  show ?case
  proof (cases "ctl = Return")
    case True
    with c s' show ?thesis by simp
  next
    case False
    have "markedForDeletion (fst (snd (session_loop es gs inputFile s' (ctl = PressEnter) answers))) \<subseteq> K"
      using "3.IH"[OF c[symmetric] refl _ s' "3.prems"(2)] False by (cases ctl) auto
    with c False show ?thesis
      by (cases ctl) (auto split: prod.splits)
  qed
qed

text \<open>The sample export, grouped and sorted.\<close>

lemma sample_groups_eq: "groupByDomain sample_entries = sample_groups"
  by (simp add: groupByDomain_def sample_entries_def sample_groups_def sample_entry_def Let_def)

lemma sample_sorted_1: "getSortedDomains sample_groups (Num 1) = sample_groups"
  by (simp add: getSortedDomains_def sample_groups_def num_le_int_def)

lemma sample_sorted_2: "getSortedDomains sample_groups (Num 2) = [hd sample_groups]"
  by (simp add: getSortedDomains_def sample_groups_def num_le_int_def)

lemma parseInt_github: "parseInt ''github.com'' = None"
  by (simp add: num_eval str_eval Let_def)

lemma takeWhile_all: "list_all P xs \<Longrightarrow> takeWhile P xs = xs"
  by (induction xs) auto

lemma digit_not_space: "isDigit c \<Longrightarrow> \<not> isSpace c \<and> c \<noteq> CHR ''-'' \<and> c \<noteq> CHR ''+''"
  by (auto simp: isDigit_def isSpace_def)

lemma parseInt_mathInt_digits:
  assumes "arg \<noteq> []" "list_all isDigit arg"
  shows "parseInt_mathInt arg = Some (digitsVal arg)"
proof -
  obtain c cs where arg: "arg = c # cs" using assms(1) by (cases arg) auto
  with assms(2) have c: "isDigit c" by simp
  have "dropWhile isSpace arg = arg"
    using digit_not_space[OF c] by (simp add: arg)
  moreover have "takeWhile isDigit arg = arg"
    using assms(2) by (rule takeWhile_all)
  ultimately show ?thesis
    using digit_not_space[OF c] assms(1) by (simp add: parseInt_mathInt_def Let_def arg)
qed

section \<open>Properties of the interactive session\<close>

text \<open>
  C4. The claim: among the names, an exact match wins, and a substring match is taken only
  when no domain of the list equals the lower-cased input. The search, however, is a single
  \<open>find\<close> whose predicate accepts equality and containment alike, so the first domain in
  display order that contains the input is returned even when a later one equals it. On the
  sample export with threshold \<open>1\<close>, the input \<open>github.com\<close> is no list index, the
  domain \<open>github.com\<close> is in the displayed list, and \<open>resolveDomain\<close> returns
  \<open>mygithub.com\<close>, which is listed above it.
\<close>

theorem resolveDomain_exact_match_shadowed:
  "parseInt ''github.com'' = None
   \<and> getSortedDomains (groupByDomain sample_entries) (Num 1) = sample_groups
   \<and> ''github.com'' \<in> fst ` set sample_groups
   \<and> resolveDomain ''github.com'' (getSortedDomains (groupByDomain sample_entries) (Num 1))
       = Some ''mygithub.com''"
  by (simp add: sample_groups_eq sample_sorted_1 parseInt_github resolveDomain_def)
     (simp add: sample_groups_def str_eval)

text \<open>
  C5. The claim: the argument \<open>def\<close> of \<open>save\<close> stands for a fixed default file name,
  resolved before the comparison with the input file name. The \<open>save\<close> case has no such
  alias: with one domain marked and the input file \<open>tabs.txt\<close>, the line \<open>save def\<close>
  writes the remaining lines to a file whose name is literally \<open>def\<close>.
\<close>

theorem save_def_writes_file_named_def:
  "command sample_entries sample_groups ''tabs.txt''
      \<lparr>threshold = Num 1, markedForDeletion = {''mygithub.com''}\<rparr> ''save def''
   = ([WriteFile ''def'' (''https://github.com/x'' @ [CHR 0x0A] @ ''https://rare.org/''),
       Print (Saved 2 ''def''), Print (Removed 2)],
      \<lparr>threshold = Num 1, markedForDeletion = {''mygithub.com''}\<rparr>, PressEnter)"
  by (simp add: command_def cmd_save_def str_eval sample_entries_def sample_entry_def Let_def)


text \<open>
  C6. \<open>save\<close> with a target equal to the input file name writes no file, whatever the
  session state. The three guards come in the order: empty file name, no domain marked,
  target equal to the input file; each one that fires prints its own report, writes nothing
  and leaves the session state as it was. When none fires, the file named by the argument
  is written.
\<close>

theorem save_guards:
  "(arg = inputFile \<longrightarrow> (\<forall>f c. WriteFile f c \<notin> set (fst (cmd_save es inputFile s arg))))
   \<and> (arg = [] \<longrightarrow> cmd_save es inputFile s arg = ([Print ProvideFilename], s, PressEnter))
   \<and> (arg \<noteq> [] \<and> markedForDeletion s = {} \<longrightarrow>
        cmd_save es inputFile s arg = ([Print NoDomainsMarked], s, PressEnter))
   \<and> (arg \<noteq> [] \<and> markedForDeletion s \<noteq> {} \<and> arg = inputFile \<longrightarrow>
        cmd_save es inputFile s arg = ([Print CannotOverwriteInput], s, PressEnter))
   \<and> (arg \<noteq> [] \<and> markedForDeletion s \<noteq> {} \<and> arg \<noteq> inputFile \<longrightarrow>
        (\<exists>content. WriteFile arg content \<in> set (fst (cmd_save es inputFile s arg))))"
  by (simp add: cmd_save_def Let_def)

theorem save_guards_witness:
  "(\<forall>f c. WriteFile f c \<notin> set (fst (cmd_save sample_entries ''tabs.txt''
        \<lparr>threshold = Num 3, markedForDeletion = {''mygithub.com''}\<rparr> ''tabs.txt'')))
   \<and> cmd_save sample_entries ''tabs.txt'' \<lparr>threshold = Num 3, markedForDeletion = {}\<rparr> []
       = ([Print ProvideFilename], \<lparr>threshold = Num 3, markedForDeletion = {}\<rparr>, PressEnter)
   \<and> cmd_save sample_entries ''tabs.txt'' \<lparr>threshold = Num 3, markedForDeletion = {}\<rparr> ''tabs.txt''
       = ([Print NoDomainsMarked], \<lparr>threshold = Num 3, markedForDeletion = {}\<rparr>, PressEnter)
   \<and> cmd_save sample_entries ''tabs.txt''
         \<lparr>threshold = Num 3, markedForDeletion = {''mygithub.com''}\<rparr> ''tabs.txt''
       = ([Print CannotOverwriteInput],
          \<lparr>threshold = Num 3, markedForDeletion = {''mygithub.com''}\<rparr>, PressEnter)
   \<and> (\<exists>content. WriteFile ''out.txt'' content \<in> set (fst (cmd_save sample_entries ''tabs.txt''
         \<lparr>threshold = Num 3, markedForDeletion = {''mygithub.com''}\<rparr> ''out.txt'')))"
  using save_guards[of "''tabs.txt''" "''tabs.txt''" sample_entries
          "\<lparr>threshold = Num 3, markedForDeletion = {''mygithub.com''}\<rparr>"]
        save_guards[of "[]" "''tabs.txt''" sample_entries "\<lparr>threshold = Num 3, markedForDeletion = {}\<rparr>"]
        save_guards[of "''tabs.txt''" "''tabs.txt''" sample_entries
          "\<lparr>threshold = Num 3, markedForDeletion = {}\<rparr>"]
        save_guards[of "''out.txt''" "''tabs.txt''" sample_entries
          "\<lparr>threshold = Num 3, markedForDeletion = {''mygithub.com''}\<rparr>"]
  by simp

text \<open>
  C7, as claimed: a domain hidden by the threshold cannot be picked by number but can still
  be picked by its name or a substring of it. This fails: on the sample export with
  threshold \<open>2\<close> the group \<open>rare.org\<close> has one entry, and neither \<open>rare.org\<close> nor
  \<open>rare\<close> resolves; \<open>delete rare.org\<close> reports that the domain was not found and marks
  nothing.
\<close>

theorem hidden_domain_found_by_name_counterexample:
  "(''rare.org'', [sample_entry ''https://rare.org/'' ''rare.org'']) \<in> set (groupByDomain sample_entries)
   \<and> resolveDomain ''rare.org'' (getSortedDomains (groupByDomain sample_entries) (Num 2)) = None
   \<and> resolveDomain ''rare'' (getSortedDomains (groupByDomain sample_entries) (Num 2)) = None
   \<and> cmd_delete (groupByDomain sample_entries) \<lparr>threshold = Num 2, markedForDeletion = {}\<rparr> ''rare.org''
       = ([Print DomainNotFound], \<lparr>threshold = Num 2, markedForDeletion = {}\<rparr>, PressEnter)"
proof -
  have p: "parseInt ''rare.org'' = None" "parseInt ''rare'' = None"
    by (simp_all add: num_eval str_eval Let_def)
  have r: "resolveDomain ''rare.org'' [hd sample_groups] = None"
       "resolveDomain ''rare'' [hd sample_groups] = None"
    by (simp_all add: resolveDomain_def p sample_groups_def str_eval)
  show ?thesis
    by (simp add: sample_groups_eq sample_sorted_2 r cmd_delete_def truthy_def)
       (simp add: sample_groups_def)
qed

text \<open>
  C7, amended: a domain whose entry count is below the current threshold cannot be the
  result of \<open>resolveDomain\<close> over the displayed list for any input, be it a number, the
  exact name or a substring. Hence \<open>show\<close> never lists its URLs and \<open>delete\<close> never
  changes whether it is marked. (The keys of a \<open>Map\<close> are distinct.)
\<close>

theorem hidden_domain_not_targetable:
  assumes dist: "distinct (map fst gs)"
    and grp: "(d, es) \<in> set gs"
    and hidden: "\<not> num_le_int (threshold s) (int (length es))"
  shows "resolveDomain input (getSortedDomains gs (threshold s)) \<noteq> Some d
         \<and> (\<forall>es'. Print (Urls d es') \<notin> set (fst (cmd_show gs s input)))
         \<and> (d \<in> markedForDeletion (fst (snd (cmd_delete gs s input)))
              \<longleftrightarrow> d \<in> markedForDeletion s)"
proof -
  let ?r = "resolveDomain input (getSortedDomains gs (threshold s))"
  have no: "?r \<noteq> Some d"
  proof
    assume "?r = Some d"
    from resolveDomain_visible[OF this] obtain e
      where e: "(d, e) \<in> set gs" "num_le_int (threshold s) (int (length e))" by blast
    from dist grp e(1) have "e = es" by (metis eq_key_imp_eq_value)
    with e(2) hidden show False by simp
  qed
  have "Print (Urls d es') \<notin> set (fst (cmd_show gs s input))" for es'
    using no by (cases ?r) (auto simp: cmd_show_def truthy_def Let_def)
  moreover have "d \<in> markedForDeletion (fst (snd (cmd_delete gs s input)))
                   \<longleftrightarrow> d \<in> markedForDeletion s"
    using no by (cases ?r) (auto simp: cmd_delete_def truthy_def Let_def)
  ultimately show ?thesis using no by blast
qed

theorem hidden_domain_not_targetable_witness:
  "resolveDomain ''rare.org'' (getSortedDomains sample_groups (Num 2)) \<noteq> Some ''rare.org''
   \<and> (\<forall>es'. Print (Urls ''rare.org'' es') \<notin>
         set (fst (cmd_show sample_groups \<lparr>threshold = Num 2, markedForDeletion = {}\<rparr> ''rare.org'')))
   \<and> ''rare.org'' \<notin> markedForDeletion (fst (snd
         (cmd_delete sample_groups \<lparr>threshold = Num 2, markedForDeletion = {}\<rparr> ''rare.org'')))"
proof -
  have d: "distinct (map fst sample_groups)"
    by (simp add: sample_groups_def)
  have g: "(''rare.org'', [sample_entry ''https://rare.org/'' ''rare.org'']) \<in> set sample_groups"
    by (simp add: sample_groups_def)
  have h: "\<not> num_le_int (threshold \<lparr>threshold = Num 2, markedForDeletion = {}\<rparr>)
               (int (length [sample_entry ''https://rare.org/'' ''rare.org'']))"
    by (simp add: num_le_int_def)
  show ?thesis
    using hidden_domain_not_targetable[OF d g h, of "''rare.org''"] by simp
qed

text \<open>
  C8, as claimed: an argument that does not denote a positive integer leaves the threshold
  unchanged. This fails: \<open>5abc\<close> is not a positive integer, yet \<open>parseInt\<close> reads its
  leading digit and the threshold becomes \<open>5\<close>.
\<close>

theorem threshold_non_integer_counterexample:
  "\<not> denotes_positive_integer ''5abc''
   \<and> cmd_threshold \<lparr>threshold = Num 3, markedForDeletion = {}\<rparr> ''5abc''
       = ([], \<lparr>threshold = Num 5, markedForDeletion = {}\<rparr>, Loop)"
  by (simp add: denotes_positive_integer_def cmd_threshold_def num_eval str_eval Let_def)

text \<open>
  C8, amended: the \<open>threshold\<close> command follows \<open>parseInt(arg, 10)\<close>. When the argument
  has no leading integer (\<open>NaN\<close>) or its leading integer is not greater than \<open>0\<close>, the
  session state is unchanged. When its leading integer \<open>n\<close> is positive (any text may
  follow the digits), the threshold becomes the number that \<open>parseInt\<close> returns for it, the
  double nearest to \<open>n\<close>, and nothing else changes: that is \<open>n\<close> itself below \<open>2^53\<close>,
  it need not be \<open>n\<close> beyond, and it is \<open>Infinity\<close> from \<open>2^1024\<close> on. In particular an
  argument that is a positive integer in decimal digits sets the threshold to the double
  nearest to that integer.
\<close>

theorem threshold_follows_parseInt:
  "((parseInt_mathInt arg = None \<or> (\<exists>n. parseInt_mathInt arg = Some n \<and> n \<le> 0)) \<longrightarrow>
       cmd_threshold s arg = ([], s, Loop))
   \<and> (\<forall>n. parseInt_mathInt arg = Some n \<and> n > 0 \<longrightarrow>
         cmd_threshold s arg = ([], s\<lparr>threshold := toDouble n\<rparr>, Loop))
   \<and> (\<forall>n. parseInt_mathInt arg = Some n \<and> 0 < n \<and> n < 2 ^ 53 \<longrightarrow>
         cmd_threshold s arg = ([], s\<lparr>threshold := Num n\<rparr>, Loop))
   \<and> (\<forall>n. parseInt_mathInt arg = Some n \<and> 2 ^ 1024 \<le> n \<longrightarrow>
         cmd_threshold s arg = ([], s\<lparr>threshold := Infinity\<rparr>, Loop))
   \<and> (denotes_positive_integer arg \<longrightarrow>
         cmd_threshold s arg = ([], s\<lparr>threshold := toDouble (digitsVal arg)\<rparr>, Loop))"
proof (intro conjI allI impI)
  assume "parseInt_mathInt arg = None \<or> (\<exists>n. parseInt_mathInt arg = Some n \<and> n \<le> 0)"
  then show "cmd_threshold s arg = ([], s, Loop)"
    by (auto simp: cmd_threshold_def parseInt_def toDouble_nonpos)
next
  fix n assume "parseInt_mathInt arg = Some n \<and> n > 0"
  then show "cmd_threshold s arg = ([], s\<lparr>threshold := toDouble n\<rparr>, Loop)"
    by (simp add: cmd_threshold_def parseInt_def toDouble_pos)
next
  fix n assume n: "parseInt_mathInt arg = Some n \<and> 0 < n \<and> n < 2 ^ 53"
  then have "toDouble n = Num n" by (simp add: toDouble_exact)
  with n show "cmd_threshold s arg = ([], s\<lparr>threshold := Num n\<rparr>, Loop)"
    using toDouble_pos[of n] by (simp add: cmd_threshold_def parseInt_def)
next
  fix n assume n: "parseInt_mathInt arg = Some n \<and> 2 ^ 1024 \<le> n"
  then have "toDouble n = Infinity" by (simp add: toDouble_overflow)
  with n show "cmd_threshold s arg = ([], s\<lparr>threshold := Infinity\<rparr>, Loop)"
    by (simp add: cmd_threshold_def parseInt_def num_gt_int_def)
next
  assume "denotes_positive_integer arg"
  then have "parseInt_mathInt arg = Some (digitsVal arg)" "0 < digitsVal arg"
    by (simp_all add: denotes_positive_integer_def parseInt_mathInt_digits)
  then show "cmd_threshold s arg = ([], s\<lparr>threshold := toDouble (digitsVal arg)\<rparr>, Loop)"
    by (simp add: cmd_threshold_def parseInt_def toDouble_pos)
qed

theorem threshold_follows_parseInt_witness:
  "cmd_threshold \<lparr>threshold = Num 3, markedForDeletion = {''a.com''}\<rparr> ''abc''
     = ([], \<lparr>threshold = Num 3, markedForDeletion = {''a.com''}\<rparr>, Loop)
   \<and> cmd_threshold \<lparr>threshold = Num 3, markedForDeletion = {''a.com''}\<rparr> ''-4''
     = ([], \<lparr>threshold = Num 3, markedForDeletion = {''a.com''}\<rparr>, Loop)
   \<and> cmd_threshold \<lparr>threshold = Num 3, markedForDeletion = {''a.com''}\<rparr> ''7 tabs''
     = ([], \<lparr>threshold = Num 7, markedForDeletion = {''a.com''}\<rparr>, Loop)
   \<and> cmd_threshold \<lparr>threshold = Num 3, markedForDeletion = {''a.com''}\<rparr> ''12''
     = ([], \<lparr>threshold = Num 12, markedForDeletion = {''a.com''}\<rparr>, Loop)
   \<and> cmd_threshold \<lparr>threshold = Num 3, markedForDeletion = {''a.com''}\<rparr> ''9007199254740993''
     = ([], \<lparr>threshold = Num 9007199254740992, markedForDeletion = {''a.com''}\<rparr>, Loop)
   \<and> cmd_threshold \<lparr>threshold = Num 3, markedForDeletion = {''a.com''}\<rparr>
       ''1000000000000000000000000000000000000000000000000000000000000000000000000000000000000000000000000000000000000000000000000000000000000000000000000000000000000000000000000000000000000000000000000000000000000000000000000000000000000000000000000000000000000000000000000000000000000000000000000000000000000000000000''
     = ([], \<lparr>threshold = Infinity, markedForDeletion = {''a.com''}\<rparr>, Loop)"
proof -
  let ?s = "\<lparr>threshold = Num 3, markedForDeletion = {''a.com''}\<rparr>"
  have p: "parseInt_mathInt ''abc'' = None" "parseInt_mathInt ''-4'' = Some (- 4)"
    "parseInt_mathInt ''7 tabs'' = Some 7"
    "parseInt_mathInt ''9007199254740993'' = Some 9007199254740993"
    by (simp_all add: parseInt_mathInt_def str_eval Let_def)
  have big: "parseInt_mathInt
       ''1000000000000000000000000000000000000000000000000000000000000000000000000000000000000000000000000000000000000000000000000000000000000000000000000000000000000000000000000000000000000000000000000000000000000000000000000000000000000000000000000000000000000000000000000000000000000000000000000000000000000000000000''
     = Some (10 ^ 309)"
    by (simp add: parseInt_mathInt_def str_eval Let_def)
  have over: "(2::int) ^ 1024 \<le> 10 ^ 309"
    by simp
  have q: "denotes_positive_integer ''12''" "digitsVal ''12'' = 12"
    by (simp_all add: denotes_positive_integer_def str_eval)
  have r: "toDouble 7 = Num 7" "toDouble 12 = Num 12"
    "toDouble 9007199254740993 = Num 9007199254740992"
    by (simp_all add: toDouble_def round_magnitude_def bit_length.simps Let_def)
  have c1: "cmd_threshold ?s ''abc'' = ([], ?s, Loop)"
    using threshold_follows_parseInt[of "''abc''" ?s] p by simp
  have c2: "cmd_threshold ?s ''-4'' = ([], ?s, Loop)"
    using threshold_follows_parseInt[of "''-4''" ?s] p by simp
  have c3: "cmd_threshold ?s ''7 tabs'' = ([], ?s\<lparr>threshold := Num 7\<rparr>, Loop)"
    using threshold_follows_parseInt[of "''7 tabs''" ?s] p r by simp
  have c4: "cmd_threshold ?s ''12'' = ([], ?s\<lparr>threshold := Num 12\<rparr>, Loop)"
    using threshold_follows_parseInt[of "''12''" ?s] q r by simp
  have c5: "cmd_threshold ?s ''9007199254740993''
              = ([], ?s\<lparr>threshold := Num 9007199254740992\<rparr>, Loop)"
    using threshold_follows_parseInt[of "''9007199254740993''" ?s] p r by simp
  have c6: "cmd_threshold ?s
       ''1000000000000000000000000000000000000000000000000000000000000000000000000000000000000000000000000000000000000000000000000000000000000000000000000000000000000000000000000000000000000000000000000000000000000000000000000000000000000000000000000000000000000000000000000000000000000000000000000000000000000000000000''
     = ([], ?s\<lparr>threshold := Infinity\<rparr>, Loop)"
    using threshold_follows_parseInt[of
        "''1000000000000000000000000000000000000000000000000000000000000000000000000000000000000000000000000000000000000000000000000000000000000000000000000000000000000000000000000000000000000000000000000000000000000000000000000000000000000000000000000000000000000000000000000000000000000000000000000000000000000000000000''" ?s]
      big over by blast
  show ?thesis
    using c1 c2 c3 c4 c5 c6 by simp
qed

text \<open>
  C9, as claimed: \<open>undo\<close> on a domain that is not in the set of marks reports
  \<open>Domain not in deletion list\<close> and leaves the set unchanged. This fails: \<open>undo\<close>
  resolves its argument like \<open>show\<close> and \<open>delete\<close> do, by number or as a substring of a
  displayed domain. On the sample export with threshold \<open>2\<close> only \<open>mygithub.com\<close> is
  displayed; with it marked, \<open>undo github.com\<close> names a domain that is not marked, resolves
  to \<open>mygithub.com\<close>, which contains the name, and removes that mark. The same happens at
  threshold \<open>1\<close>, where \<open>github.com\<close> is displayed below \<open>mygithub.com\<close>.
\<close>

theorem undo_unmarked_domain_counterexample:
  "''github.com'' \<in> fst ` set sample_groups
   \<and> ''github.com'' \<notin> markedForDeletion \<lparr>threshold = Num 2, markedForDeletion = {''mygithub.com''}\<rparr>
   \<and> cmd_undo sample_groups \<lparr>threshold = Num 2, markedForDeletion = {''mygithub.com''}\<rparr>
        ''github.com''
       = ([Print (Unmarked ''mygithub.com'')],
          \<lparr>threshold = Num 2, markedForDeletion = {}\<rparr>, PressEnter)
   \<and> cmd_undo sample_groups \<lparr>threshold = Num 1, markedForDeletion = {''mygithub.com''}\<rparr>
        ''github.com''
       = ([Print (Unmarked ''mygithub.com'')],
          \<lparr>threshold = Num 1, markedForDeletion = {}\<rparr>, PressEnter)"
proof -
  have r: "resolveDomain ''github.com'' [hd sample_groups] = Some ''mygithub.com''"
    "resolveDomain ''github.com'' sample_groups = Some ''mygithub.com''"
    by (simp_all add: resolveDomain_def parseInt_github sample_groups_def str_eval)
  show ?thesis
    by (simp add: cmd_undo_def undo_target_def sample_sorted_1 sample_sorted_2 r truthy_def)
       (simp add: sample_groups_def)
qed

text \<open>
  C9, amended: running the same \<open>delete\<close> command a second time gives the same result as
  running it once (the same report and the same session state, so the set of marks is the
  one that a single marking produces), and so does a second \<open>delete\<close> whose argument
  resolves to the same domain. \<open>undo\<close> prints \<open>Domain not in deletion list\<close>, leaves the
  session state unchanged and goes on to the next prompt whenever no marked domain equals
  or contains the lower-cased argument and the argument is not the list number of a marked
  domain. In every case \<open>undo\<close> takes at most one domain out of the set, the one its
  argument resolves to.
\<close>

theorem delete_idempotent_undo_noop:
  "cmd_delete gs (fst (snd (cmd_delete gs s arg))) arg = cmd_delete gs s arg
   \<and> (resolveDomain arg' (getSortedDomains gs (threshold s))
         = resolveDomain arg (getSortedDomains gs (threshold s)) \<longrightarrow>
        cmd_delete gs (fst (snd (cmd_delete gs s arg))) arg' = cmd_delete gs s arg)
   \<and> ((\<forall>d \<in> markedForDeletion s. \<not> str_includes d (toLowerCase arg))
        \<and> (\<forall>n. parseInt arg = Some (Num n) \<and> 1 \<le> n
                \<and> n \<le> int (length (getSortedDomains gs (threshold s)))
              \<longrightarrow> fst (getSortedDomains gs (threshold s) ! nat (n - 1)) \<notin> markedForDeletion s)
        \<longrightarrow> cmd_undo gs s arg = ([Print NotInDeletionList], s, PressEnter))
   \<and> markedForDeletion (fst (snd (cmd_undo gs s arg)))
        = markedForDeletion s - {undo_target gs s arg}"
proof (intro conjI impI)
  show "cmd_delete gs (fst (snd (cmd_delete gs s arg))) arg = cmd_delete gs s arg"
    by (simp add: cmd_delete_def Let_def)
next
  assume "resolveDomain arg' (getSortedDomains gs (threshold s))
            = resolveDomain arg (getSortedDomains gs (threshold s))"
  then show "cmd_delete gs (fst (snd (cmd_delete gs s arg))) arg' = cmd_delete gs s arg"
    by (simp add: cmd_delete_def Let_def)
next
  let ?sd = "getSortedDomains gs (threshold s)"
  assume h: "(\<forall>d \<in> markedForDeletion s. \<not> str_includes d (toLowerCase arg))
        \<and> (\<forall>n. parseInt arg = Some (Num n) \<and> 1 \<le> n \<and> n \<le> int (length ?sd)
              \<longrightarrow> fst (?sd ! nat (n - 1)) \<notin> markedForDeletion s)"
  have lower: "toLowerCase arg \<notin> markedForDeletion s"
    using h str_includes_refl by blast
  have "d \<notin> markedForDeletion s" if "resolveDomain arg ?sd = Some d" "d \<noteq> []" for d
    using resolveDomain_cases[OF that(1)] h lower by blast
  then have "undo_target gs s arg \<notin> markedForDeletion s"
    using lower by (cases "resolveDomain arg ?sd") (auto simp: undo_target_def truthy_def Let_def)
  then show "cmd_undo gs s arg = ([Print NotInDeletionList], s, PressEnter)"
    by (simp add: cmd_undo_def Let_def)
next
  show "markedForDeletion (fst (snd (cmd_undo gs s arg)))
          = markedForDeletion s - {undo_target gs s arg}"
    by (simp add: cmd_undo_def Let_def)
qed

theorem delete_idempotent_undo_noop_witness:
  "cmd_delete sample_groups (fst (snd (cmd_delete sample_groups
        \<lparr>threshold = Num 1, markedForDeletion = {}\<rparr> ''2''))) ''2''
     = ([Print (Marked ''github.com'')],
        \<lparr>threshold = Num 1, markedForDeletion = {''github.com''}\<rparr>, PressEnter)
   \<and> cmd_delete sample_groups (fst (snd (cmd_delete sample_groups
        \<lparr>threshold = Num 1, markedForDeletion = {}\<rparr> ''3''))) ''Rare''
     = ([Print (Marked ''rare.org'')],
        \<lparr>threshold = Num 1, markedForDeletion = {''rare.org''}\<rparr>, PressEnter)
   \<and> cmd_undo sample_groups \<lparr>threshold = Num 1, markedForDeletion = {''github.com''}\<rparr> ''rare''
     = ([Print NotInDeletionList],
        \<lparr>threshold = Num 1, markedForDeletion = {''github.com''}\<rparr>, PressEnter)
   \<and> cmd_undo sample_groups \<lparr>threshold = Num 1, markedForDeletion = {''github.com''}\<rparr> ''3''
     = ([Print NotInDeletionList],
        \<lparr>threshold = Num 1, markedForDeletion = {''github.com''}\<rparr>, PressEnter)
   \<and> markedForDeletion (fst (snd (cmd_undo sample_groups
        \<lparr>threshold = Num 1, markedForDeletion = {''github.com'', ''rare.org''}\<rparr> ''2'')))
     = {''rare.org''}"
proof -
  let ?s0 = "\<lparr>threshold = Num 1, markedForDeletion = {}\<rparr>"
  let ?s1 = "\<lparr>threshold = Num 1, markedForDeletion = {''github.com''}\<rparr>"
  let ?s2 = "\<lparr>threshold = Num 1, markedForDeletion = {''github.com'', ''rare.org''}\<rparr>"
  have p: "parseInt ''2'' = Some (Num 2)" "parseInt ''3'' = Some (Num 3)"
     "parseInt ''rare'' = None" "parseInt ''Rare'' = None"
    by (simp_all add: num_eval str_eval Let_def)
  have r: "resolveDomain ''2'' sample_groups = Some ''github.com''"
          "resolveDomain ''3'' sample_groups = Some ''rare.org''"
          "resolveDomain ''rare'' sample_groups = Some ''rare.org''"
          "resolveDomain ''Rare'' sample_groups = Some ''rare.org''"
    by (simp_all add: resolveDomain_def p sample_groups_def str_eval)
  have once: "cmd_delete sample_groups ?s0 ''2'' = ([Print (Marked ''github.com'')], ?s1, PressEnter)"
     "cmd_delete sample_groups ?s0 ''3''
        = ([Print (Marked ''rare.org'')],
           \<lparr>threshold = Num 1, markedForDeletion = {''rare.org''}\<rparr>, PressEnter)"
    by (simp_all add: cmd_delete_def sample_sorted_1 r truthy_def)
  have same: "resolveDomain ''Rare'' (getSortedDomains sample_groups (threshold ?s0))
              = resolveDomain ''3'' (getSortedDomains sample_groups (threshold ?s0))"
    by (simp add: sample_sorted_1 r)
  have names: "\<forall>d \<in> markedForDeletion ?s1. \<not> str_includes d (toLowerCase ''rare'')"
    "\<forall>d \<in> markedForDeletion ?s1. \<not> str_includes d (toLowerCase ''3'')"
    by (simp_all add: str_eval)
  have nums: "\<forall>n. parseInt ''rare'' = Some (Num n) \<and> 1 \<le> n
                \<and> n \<le> int (length (getSortedDomains sample_groups (threshold ?s1)))
              \<longrightarrow> fst (getSortedDomains sample_groups (threshold ?s1) ! nat (n - 1))
                    \<notin> markedForDeletion ?s1"
    "\<forall>n. parseInt ''3'' = Some (Num n) \<and> 1 \<le> n
                \<and> n \<le> int (length (getSortedDomains sample_groups (threshold ?s1)))
              \<longrightarrow> fst (getSortedDomains sample_groups (threshold ?s1) ! nat (n - 1))
                    \<notin> markedForDeletion ?s1"
    by (simp_all add: p sample_sorted_1) (simp add: sample_groups_def)
  have t: "undo_target sample_groups ?s2 ''2'' = ''github.com''"
    by (simp add: undo_target_def sample_sorted_1 r truthy_def)
  have set: "{''github.com'', ''rare.org''} - {''github.com''} = {''rare.org''}"
    by auto
  show ?thesis
    using delete_idempotent_undo_noop[of sample_groups ?s0 "''2''"]
          delete_idempotent_undo_noop[of sample_groups ?s0 "''3''" "''Rare''"]
          delete_idempotent_undo_noop[of sample_groups ?s1 "''rare''"]
          delete_idempotent_undo_noop[of sample_groups ?s1 "''3''"]
          delete_idempotent_undo_noop[of sample_groups ?s2 "''2''"]
          once same names nums t set
    by simp
qed

text \<open>
  C10. Every marked domain is a key of the grouping index: after any sequence of input
  lines the marks of the session started by \<open>runInteractive\<close> are keys of \<open>groups\<close>;
  one pass of the loop keeps the property; and with the index built by \<open>groupByDomain\<close>
  every marked domain is the domain of a parsed entry.
\<close>

theorem marks_are_index_keys:
  "markedForDeletion (fst (snd (runInteractive es gs initialThreshold inputFile answers)))
      \<subseteq> fst ` set gs
   \<and> (markedForDeletion s \<subseteq> fst ` set gs \<longrightarrow>
        markedForDeletion (fst (snd (command es gs inputFile s answer))) \<subseteq> fst ` set gs)
   \<and> markedForDeletion
        (fst (snd (runInteractive es (groupByDomain es) initialThreshold inputFile answers)))
      \<subseteq> domain ` set es"
proof (intro conjI impI)
  show "markedForDeletion (fst (snd (runInteractive es gs initialThreshold inputFile answers)))
          \<subseteq> fst ` set gs"
    unfolding runInteractive_def by (rule session_loop_marks) simp_all
next
  assume "markedForDeletion s \<subseteq> fst ` set gs"
  then show "markedForDeletion (fst (snd (command es gs inputFile s answer))) \<subseteq> fst ` set gs"
    using command_marks[of es gs inputFile s answer] by auto
next
  have "markedForDeletion
          (fst (snd (runInteractive es (groupByDomain es) initialThreshold inputFile answers)))
        \<subseteq> fst ` set (groupByDomain es)"
    unfolding runInteractive_def by (rule session_loop_marks) simp_all
  then show "markedForDeletion
          (fst (snd (runInteractive es (groupByDomain es) initialThreshold inputFile answers)))
        \<subseteq> domain ` set es"
    by (simp only: groupByDomain_keys)
qed

theorem marks_are_index_keys_witness:
  "markedForDeletion (fst (snd (runInteractive sample_entries sample_groups (Num 1) ''tabs.txt''
       [''d github.com'', [], ''delete 2'', ''ok'', ''u 1'', [], ''q''])))
     \<subseteq> fst ` set sample_groups
   \<and> markedForDeletion (fst (snd (command sample_entries sample_groups ''tabs.txt''
        \<lparr>threshold = Num 1, markedForDeletion = {''github.com''}\<rparr> ''d rare'')))
     \<subseteq> fst ` set sample_groups"
proof -
  have "markedForDeletion \<lparr>threshold = Num 1, markedForDeletion = {''github.com''}\<rparr>
          \<subseteq> fst ` set sample_groups"
    by (simp add: sample_groups_def)
  then show ?thesis
    using marks_are_index_keys[of sample_entries sample_groups "Num 1" "''tabs.txt''"
        "[''d github.com'', [], ''delete 2'', ''ok'', ''u 1'', [], ''q'']"
        "\<lparr>threshold = Num 1, markedForDeletion = {''github.com''}\<rparr>" "''d rare''"]
    by blast
qed


end
